theory Spec2Isabelle
  imports Complex_Main "HOL-Library.Char_ord" "HOL-Library.List_Lexorder" "HOL-Library.AList"
begin

section \<open>Python string primitives\<close>

text \<open>
  A Python \<open>str\<close> is modelled as a \<open>string\<close>: one \<open>char\<close> per code point, for the
  code points below 256. The order on strings is the lexicographic order on code
  points, which is what Python's comparison operators and \<open>sorted\<close> use on \<open>str\<close>.
\<close>

text \<open>\<open>str.isspace\<close> on one character: the code points below 256 that \<open>str.strip()\<close> removes.\<close>

definition is_space :: "char \<Rightarrow> bool" where
  "is_space c \<longleftrightarrow> c \<in> set [CHR 0x09, CHR 0x0A, CHR 0x0B, CHR 0x0C, CHR 0x0D,
                            CHR 0x1C, CHR 0x1D, CHR 0x1E, CHR 0x1F, CHR 0x20,
                            CHR 0x85, CHR 0xA0]"

definition lstrip :: "string \<Rightarrow> string" where
  "lstrip s = dropWhile is_space s"

definition rstrip :: "string \<Rightarrow> string" where
  "rstrip s = rev (dropWhile is_space (rev s))"

text \<open>\<open>s.strip()\<close>\<close>

definition strip :: "string \<Rightarrow> string" where
  "strip s = lstrip (rstrip s)"

text \<open>\<open>s.endswith(c)\<close> for a one-character suffix.\<close>

definition endswith :: "string \<Rightarrow> char \<Rightarrow> bool" where
  "endswith s c \<longleftrightarrow> (case rev s of [] \<Rightarrow> False | x # _ \<Rightarrow> x = c)"

text \<open>\<open>s.rfind(c)\<close>: the index of the last occurrence of \<open>c\<close>, or \<open>-1\<close>.\<close>

definition rfind :: "string \<Rightarrow> char \<Rightarrow> int" where
  "rfind s c = (if c \<in> set s
                then int (length s) - 1 - int (length (takeWhile (\<lambda>x. x \<noteq> c) (rev s)))
                else - 1)"

text \<open>
  Slices. A bound of a Python slice is clamped to the length of the sequence, and a
  negative bound counts from the end: \<open>s[i:]\<close>, \<open>s[:j]\<close> and \<open>s[i:j]\<close>.
\<close>

definition slice_bound :: "nat \<Rightarrow> int \<Rightarrow> nat" where
  "slice_bound n i = (if i < 0 then nat (max 0 (int n + i)) else min n (nat i))"

definition slice_from :: "'a list \<Rightarrow> int \<Rightarrow> 'a list" where
  "slice_from s i = drop (slice_bound (length s) i) s"

definition slice_upto :: "'a list \<Rightarrow> int \<Rightarrow> 'a list" where
  "slice_upto s j = take (slice_bound (length s) j) s"

definition slice :: "'a list \<Rightarrow> int \<Rightarrow> int \<Rightarrow> 'a list" where
  "slice s i j = (let lo = slice_bound (length s) i; hi = slice_bound (length s) j
                  in take (hi - lo) (drop lo s))"

text \<open>
  \<open>s.split(c, 1)\<close> where \<open>c in s\<close> holds: the text before the first \<open>c\<close> and the text
  after it. Every call in the source that unpacks the two parts is guarded by \<open>c in s\<close>.
\<close>

definition split_once :: "string \<Rightarrow> char \<Rightarrow> string \<times> string" where
  "split_once s c = (takeWhile (\<lambda>x. x \<noteq> c) s, drop 1 (dropWhile (\<lambda>x. x \<noteq> c) s))"

text \<open>\<open>s.split(c)\<close>: all the pieces between occurrences of \<open>c\<close>; never an empty list.\<close>

fun split_on :: "char \<Rightarrow> string \<Rightarrow> string list" where
  "split_on c [] = [[]]"
| "split_on c (x # xs) =
     (if x = c then [] # split_on c xs
      else (case split_on c xs of [] \<Rightarrow> [[x]] | p # ps \<Rightarrow> (x # p) # ps))"

section \<open>Signature normalizer\<close>

text \<open>Canonical tuples, as the source returns them.\<close>

type_synonym attribute = "string \<times> string \<times> string \<times> string"
type_synonym operation = "string \<times> string \<times> (string \<times> string) list \<times> string"

definition normalize_multiplicity :: "string \<Rightarrow> string" where
  "normalize_multiplicity mult =
     (if mult = [] then ''1..1''
      else let mult = strip mult in
        if mult = ''1'' then ''1..1''
        else if mult \<in> set [''*'', ''..*''] then ''0..*''
        else if mult = ''1..'' then ''1..*''
        else mult)"

text \<open>
  The visibility prefix, lines 24 to 27 of \<open>parse_attribute\<close> and 47 to 50 of
  \<open>parse_operation\<close>: the argument is the stripped raw string, the result the
  visibility and the rest of the string, stripped again.
\<close>

definition take_visibility :: "string \<Rightarrow> string \<times> string" where
  "take_visibility s =
     (case s of
        [] \<Rightarrow> (''+'', s)
      | c # rest \<Rightarrow> if c \<in> set [CHR ''+'', CHR ''-'', CHR ''#'', CHR ''~'']
                    then ([c], strip rest) else (''+'', s))"

definition parse_attribute :: "string \<Rightarrow> attribute" where
  "parse_attribute raw =
     (let (vis, attr) = take_visibility (strip raw);
          (mult, attr) =
            (if CHR ''['' \<in> set attr \<and> endswith attr CHR '']''
             then let idx = rfind attr CHR ''[''
                  in (normalize_multiplicity (slice attr (idx + 1) (- 1)),
                      strip (slice_upto attr idx))
             else (''1'', attr));
          (name, typ) =
            (if CHR '':'' \<in> set attr
             then let (name, typ) = split_once attr CHR '':'' in (strip name, strip typ)
             else (attr, ''''))
      in (vis, name, typ, mult))"

fun parse_params :: "string list \<Rightarrow> (string \<times> string) list" where
  "parse_params [] = []"
| "parse_params (piece # pieces) =
     (let param = strip piece in
        if param = [] then parse_params pieces
        else if CHR '':'' \<in> set param
        then (let (p_name, p_type) = split_once param CHR '':''
              in (strip p_name, strip p_type) # parse_params pieces)
        else (param, '''') # parse_params pieces)"

text \<open>
  Lines 52 to 58 of \<open>parse_operation\<close>: the return type, and the rest of the
  string once the return type is cut off.
\<close>

definition return_type :: "string \<Rightarrow> string \<times> string" where
  "return_type op =
     (if CHR '':'' \<in> set op \<and> count_list op CHR ''('' = count_list op CHR '')''
      then let last_colon = rfind op CHR '':''; last_paren = rfind op CHR '')''
           in if last_colon > last_paren
              then (strip (slice_from op (last_colon + 1)), strip (slice_upto op last_colon))
              else (''void'', op)
      else (''void'', op))"

definition parse_operation :: "string \<Rightarrow> operation" where
  "parse_operation raw =
     (let (vis, op) = take_visibility (strip raw);
          (ret_type, op) = return_type op
      in if CHR ''('' \<notin> set op then (vis, op, [], ret_type)
         else if CHR '')'' \<notin> set op then (vis, op, [], ret_type)
         else let (name_part, rest) = split_once op CHR ''('';
                  name = strip name_part;
                  params_str = takeWhile (\<lambda>x. x \<noteq> CHR '')'') rest;
                  params_list = (if strip params_str \<noteq> []
                                 then parse_params (split_on CHR '','' params_str) else [])
              in (vis, name, params_list, ret_type))"

section \<open>Relationship extractor\<close>

text \<open>
  A relationship record is a \<open>Dict[str, str]\<close>, the type \<open>parse_association\<close> declares
  for its argument: a finite map from field names to strings, where \<open>rel.get(k)\<close> is
  \<open>None\<close> for an absent field.
\<close>

type_synonym rel_record = "string \<rightharpoonup> string"

datatype error = KeyError string | ZeroDivisionError

text \<open>\<open>d.get(k, default)\<close>\<close>

definition get_default :: "('k \<rightharpoonup> 'v) \<Rightarrow> 'k \<Rightarrow> 'v \<Rightarrow> 'v" where
  "get_default d k dflt = (case d k of None \<Rightarrow> dflt | Some v \<Rightarrow> v)"

type_synonym assoc_key = "(string \<times> string) \<times> string \<times> string"

text \<open>\<open>assoc['source']\<close> and \<open>assoc['target']\<close> raise \<open>KeyError\<close> on an absent field.\<close>

definition parse_association :: "rel_record \<Rightarrow> error + assoc_key" where
  "parse_association assoc =
     (case assoc ''source'' of
        None \<Rightarrow> Inl (KeyError ''source'')
      | Some src \<Rightarrow>
     (case assoc ''target'' of
        None \<Rightarrow> Inl (KeyError ''target'')
      | Some tgt \<Rightarrow>
          let mult_src = normalize_multiplicity (get_default assoc ''multiplicity_source'' '''');
              mult_tgt = normalize_multiplicity (get_default assoc ''multiplicity_target'' '''');
              key = (src, tgt);
              key = (if assoc ''direction'' = Some ''bidirectional''
                     then (if src > tgt then (tgt, src) else key)
                     else key)
          in Inr (key, mult_tgt, mult_src)))"

text \<open>
  The keys of the six relationship types are tuples of three shapes; each type has a
  set of its own, so keys of different types are never compared.
\<close>

datatype rel_key =
    Assoc assoc_key
  | WholePart "string \<times> string \<times> string \<times> string"
  | Pair "string \<times> string"

text \<open>
  The lines written to \<open>stderr\<close>: a record skipped for a missing field (the message
  names the type and the record), and a record skipped by the \<open>except\<close> handler (the
  message names the type, the index, the exception and the record).
\<close>

datatype warning =
    SkipMalformed string rel_record
  | ParseError string nat error rel_record

datatype outcome = Key rel_key | Skip warning | Nothing

definition rel_types :: "string list" where
  "rel_types = [''association'', ''composition'', ''aggregation'',
                ''dependency'', ''inheritance'', ''realization'']"

text \<open>
  The three types whose key is a pair of two required fields \<open>f\<close> and \<open>g\<close>
  (dependency, inheritance, realization).
\<close>

definition pair_record :: "string \<Rightarrow> rel_record \<Rightarrow> string \<Rightarrow> string \<Rightarrow> outcome" where
  "pair_record rel_type rel f g =
     (case rel f of
        None \<Rightarrow> Skip (SkipMalformed rel_type rel)
      | Some a \<Rightarrow>
     (case rel g of
        None \<Rightarrow> Skip (SkipMalformed rel_type rel)
      | Some b \<Rightarrow> Key (Pair (a, b))))"

text \<open>
  The body of the loop of \<open>process_relationships\<close> for one record: the key to add, or
  the warning to print. No branch of the \<open>if\<close>/\<open>elif\<close> chain is taken for a type
  that is not one of the six. An exception raised inside the \<open>try\<close> block is caught
  by the handler, which prints a warning and goes on to the next record.
\<close>

definition process_record :: "string \<Rightarrow> nat \<Rightarrow> rel_record \<Rightarrow> outcome" where
  "process_record rel_type idx rel =
     (if rel_type = ''association'' then
        (if rel ''source'' = None \<or> rel ''target'' = None
         then Skip (SkipMalformed rel_type rel)
         else (case parse_association rel of
                 Inl e \<Rightarrow> Skip (ParseError rel_type idx e rel)
               | Inr key \<Rightarrow> Key (Assoc key)))
      else if rel_type \<in> set [''composition'', ''aggregation''] then
        (case rel ''whole'' of
           None \<Rightarrow> Skip (SkipMalformed rel_type rel)
         | Some whole \<Rightarrow>
        (case rel ''part'' of
           None \<Rightarrow> Skip (SkipMalformed rel_type rel)
         | Some part \<Rightarrow>
             Key (WholePart (whole, part,
                    normalize_multiplicity (get_default rel ''multiplicity_whole'' ''1''),
                    normalize_multiplicity (get_default rel ''multiplicity_part'' ''1'')))))
      else if rel_type = ''dependency'' then pair_record rel_type rel ''dependent'' ''supplier''
      else if rel_type = ''inheritance'' then pair_record rel_type rel ''parent'' ''child''
      else if rel_type = ''realization'' then pair_record rel_type rel ''interface'' ''implementation''
      else Nothing)"

fun process_loop ::
  "string \<Rightarrow> nat \<Rightarrow> rel_record list \<Rightarrow> rel_key set \<times> warning list \<Rightarrow> rel_key set \<times> warning list"
where
  "process_loop rel_type idx [] acc = acc"
| "process_loop rel_type idx (rel # rels) (result, warnings) =
     process_loop rel_type (Suc idx) rels
       (case process_record rel_type idx rel of
          Key key \<Rightarrow> (insert key result, warnings)
        | Skip w \<Rightarrow> (result, warnings @ [w])
        | Nothing \<Rightarrow> (result, warnings))"

text \<open>The set of keys returned, and the warnings printed on the way, in order.\<close>

definition process_relationships :: "rel_record list \<Rightarrow> string \<Rightarrow> rel_key set \<times> warning list" where
  "process_relationships rel_list rel_type = process_loop rel_type 0 rel_list ({}, [])"

section \<open>Matching and scoring engine\<close>

text \<open>
  The input document. \<open>cls["name"]\<close> raises \<open>KeyError\<close> when a class or an enumeration
  has no name, so the name is optional in the model; the lists default to empty
  (\<open>cls.get("attributes", [])\<close>), as does the list of records of a relationship type.
\<close>

record class_decl =
  class_name :: "string option"
  attributes :: "string list"
  operations :: "string list"

record enum_decl =
  enum_name :: "string option"
  literals :: "string list"

record document =
  classes :: "class_decl list"
  enumerations :: "enum_decl list"
  relationships :: "string \<Rightarrow> rel_record list"

text \<open>An element of a universe; \<open>kind\<close> is the entry \<open>"type"\<close> of the source.\<close>

record element =
  kind :: string
  attrs :: "attribute set"
  ops :: "operation set"

text \<open>
  A Python \<open>dict\<close> keeps its keys in insertion order, and assigning to a key that is
  present replaces the value in place: an association list under \<open>AList.update\<close>.
\<close>

type_synonym elements = "(string \<times> element) list"

text \<open>The element stored for a class (line 148) and for an enumeration (line 160).\<close>

definition class_element :: "class_decl \<Rightarrow> element" where
  "class_element cls =
     \<lparr>kind = ''class'',
      attrs = set (map parse_attribute (attributes cls)),
      ops = set (map parse_operation (operations cls))\<rparr>"

definition enum_element :: "enum_decl \<Rightarrow> element" where
  "enum_element enum =
     \<lparr>kind = ''enum'',
      attrs = set (map (\<lambda>lit. (''+'', lit, '''', ''1'')) (literals enum)),
      ops = {}\<rparr>"

fun load_classes :: "class_decl list \<Rightarrow> elements \<Rightarrow> error + elements" where
  "load_classes [] els = Inr els"
| "load_classes (cls # rest) els =
     (case class_name cls of
        None \<Rightarrow> Inl (KeyError ''name'')
      | Some name \<Rightarrow>
          load_classes rest
            (AList.update name (class_element cls) els))"

fun load_enums :: "enum_decl list \<Rightarrow> elements \<Rightarrow> error + elements" where
  "load_enums [] els = Inr els"
| "load_enums (enum # rest) els =
     (case enum_name enum of
        None \<Rightarrow> Inl (KeyError ''name'')
      | Some name \<Rightarrow>
          load_enums rest
            (AList.update name (enum_element enum) els))"

text \<open>The loop that matches classes and enumerations by name and content.\<close>

definition match_elements :: "elements \<Rightarrow> elements \<Rightarrow> string set" where
  "match_elements true_elements pred_elements =
     set (map fst (filter (\<lambda>(name, t).
            case map_of pred_elements name of
              None \<Rightarrow> False
            | Some p \<Rightarrow> attrs t = attrs p \<and> ops t = ops p) true_elements))"

text \<open>
  Numbers. The counts are lengths, natural numbers. Python's floats are modelled by
  exact rationals: the binary rounding of an operation is not modelled, so a
  quotient that is not a binary fraction stands for the float next to it.
  \<open>round(x, 4)\<close> is modelled by rounding the exact value to four decimal places, a
  tie going to the even neighbour. Division raises \<open>ZeroDivisionError\<close> on a zero
  divisor.

  The model and the code agree on zero counts and wherever every intermediate value
  is a binary fraction. They can differ in the last of the four decimals when the
  exact value lies on or next to a rounding tie: for the counts \<open>(20000, 20000, 1)\<close>
  the exact precision \<open>1/20000\<close> is a tie and rounds to \<open>0\<close> here, where the float
  next to it rounds to \<open>0.0001\<close>. The statements below about \<open>round4\<close> are
  statements about this exact rounding.
\<close>

definition py_div :: "rat \<Rightarrow> rat \<Rightarrow> error + rat" where
  "py_div a b = (if b = 0 then Inl ZeroDivisionError else Inr (a / b))"

definition round_half_even :: "rat \<Rightarrow> int" where
  "round_half_even x =
     (let f = \<lfloor>x\<rfloor>; d = x - of_int f
      in if d < 1 / 2 then f else if 1 / 2 < d then f + 1 else if even f then f else f + 1)"

definition round4 :: "rat \<Rightarrow> rat" where
  "round4 x = of_int (round_half_even (x * 10000)) / 10000"

record scores =
  precision :: rat
  recall :: rat
  f1 :: rat

definition calc_prf :: "nat \<Rightarrow> nat \<Rightarrow> nat \<Rightarrow> error + scores" where
  "calc_prf true_n pred_n match_n =
     (case (if pred_n > 0 then py_div (of_nat match_n) (of_nat pred_n) else Inr 0) of
        Inl e \<Rightarrow> Inl e
      | Inr p \<Rightarrow>
     (case (if true_n > 0 then py_div (of_nat match_n) (of_nat true_n) else Inr 0) of
        Inl e \<Rightarrow> Inl e
      | Inr r \<Rightarrow>
     (case (if p + r > 0 then py_div (2 * p * r) (p + r) else Inr 0) of
        Inl e \<Rightarrow> Inl e
      | Inr f \<Rightarrow> Inr \<lparr>precision = round4 p, recall = round4 r, f1 = round4 f\<rparr>)))"

record counts =
  true_classes_and_enums :: nat
  predicted_classes_and_enums :: nat
  matched_classes_and_enums :: nat
  true_relationships :: nat
  predicted_relationships :: nat
  matched_relationships :: nat

record class_matching =
  matched :: "string list"
  mismatched_in_ground_truth :: "string list"
  extra_in_prediction :: "string list"

text \<open>
  The relationship part of the detailed output is kept as the three sets of keys of
  each type; their rendering as sorted lists of descriptions is not modelled.
\<close>

record rel_matching =
  rel_matched :: "rel_key set"
  missing_in_prediction :: "rel_key set"
  rel_extra_in_prediction :: "rel_key set"

record metrics =
  class_metrics :: scores
  relationship_metrics :: scores
  overall_metrics :: scores
  counts :: counts
  detailed_class_matching :: class_matching
  detailed_relationship_matching :: "(string \<times> rel_matching) list"

text \<open>
  The part of \<open>compute_metrics\<close> after the two element universes are built: the
  relationships of both documents, the counts, the detailed output and the three
  metric triples, with the warnings printed on the way.
\<close>

definition score ::
  "elements \<Rightarrow> elements \<Rightarrow> document \<Rightarrow> document \<Rightarrow> error + metrics \<times> warning list" where
  "score true_elements pred_elements true_data pred_data =
     (let matched_classes = match_elements true_elements pred_elements;
          true_rels = (\<lambda>rt. process_relationships (relationships true_data rt) rt);
          pred_rels = (\<lambda>rt. process_relationships (relationships pred_data rt) rt);
          warnings = concat (map (\<lambda>rt. snd (true_rels rt) @ snd (pred_rels rt)) rel_types);
          true_c = length true_elements;
          pred_c = length pred_elements;
          match_c = card matched_classes;
          true_r = sum_list (map (\<lambda>rt. card (fst (true_rels rt))) rel_types);
          pred_r = sum_list (map (\<lambda>rt. card (fst (pred_rels rt))) rel_types);
          match_r = sum_list (map (\<lambda>rt. card (fst (true_rels rt) \<inter> fst (pred_rels rt))) rel_types);
          detailed_classes =
            \<lparr>matched = sorted_list_of_set matched_classes,
             mismatched_in_ground_truth =
               sorted_list_of_set (set (map fst true_elements) - matched_classes),
             extra_in_prediction =
               sorted_list_of_set (set (map fst pred_elements) - matched_classes)\<rparr>;
          detailed_rels =
            map (\<lambda>rt. (rt,
                   \<lparr>rel_matched = fst (true_rels rt) \<inter> fst (pred_rels rt),
                    missing_in_prediction = fst (true_rels rt) - fst (pred_rels rt),
                    rel_extra_in_prediction = fst (pred_rels rt) - fst (true_rels rt)\<rparr>)) rel_types
      in case calc_prf true_c pred_c match_c of
           Inl e \<Rightarrow> Inl e
         | Inr cm \<Rightarrow>
        (case calc_prf true_r pred_r match_r of
           Inl e \<Rightarrow> Inl e
         | Inr rm \<Rightarrow>
        (case calc_prf (true_c + true_r) (pred_c + pred_r) (match_c + match_r) of
           Inl e \<Rightarrow> Inl e
         | Inr om \<Rightarrow>
             Inr (\<lparr>class_metrics = cm,
                   relationship_metrics = rm,
                   overall_metrics = om,
                   counts = \<lparr>true_classes_and_enums = true_c,
                             predicted_classes_and_enums = pred_c,
                             matched_classes_and_enums = match_c,
                             true_relationships = true_r,
                             predicted_relationships = pred_r,
                             matched_relationships = match_r\<rparr>,
                   detailed_class_matching = detailed_classes,
                   detailed_relationship_matching = detailed_rels\<rparr>, warnings))))"

definition compute_metrics :: "document \<Rightarrow> document \<Rightarrow> error + metrics \<times> warning list" where
  "compute_metrics true_data pred_data =
     (case load_classes (classes true_data) [] of
        Inl e \<Rightarrow> Inl e
      | Inr true_elements \<Rightarrow>
     (case load_classes (classes pred_data) [] of
        Inl e \<Rightarrow> Inl e
      | Inr pred_elements \<Rightarrow>
     (case load_enums (enumerations true_data) true_elements of
        Inl e \<Rightarrow> Inl e
      | Inr true_elements \<Rightarrow>
     (case load_enums (enumerations pred_data) pred_elements of
        Inl e \<Rightarrow> Inl e
      | Inr pred_elements \<Rightarrow> score true_elements pred_elements true_data pred_data))))"

text \<open>
  The element universe of one document: its classes, then its enumerations, loaded
  into one dictionary. \<open>compute_metrics\<close> builds the two universes interleaved
  (\<open>compute_metrics_universes\<close> below relates the two).
\<close>

definition element_universe :: "document \<Rightarrow> error + elements" where
  "element_universe d =
     (case load_classes (classes d) [] of
        Inl e \<Rightarrow> Inl e
      | Inr els \<Rightarrow> load_enums (enumerations d) els)"

section \<open>Notions of the specification\<close>



section \<open>Example inputs\<close>

text \<open>A bidirectional association between \<open>A\<close> and \<open>B\<close>, and the reversed record.\<close>

definition assoc_forward :: rel_record where
  "assoc_forward = [''source'' \<mapsto> ''A'', ''target'' \<mapsto> ''B'', ''direction'' \<mapsto> ''bidirectional'',
                    ''multiplicity_source'' \<mapsto> ''1'', ''multiplicity_target'' \<mapsto> ''*'']"

definition assoc_reversed :: rel_record where
  "assoc_reversed = [''source'' \<mapsto> ''B'', ''target'' \<mapsto> ''A'', ''direction'' \<mapsto> ''bidirectional'',
                     ''multiplicity_source'' \<mapsto> ''*'', ''multiplicity_target'' \<mapsto> ''1'']"

text \<open>The end-to-end example of the specification: one class \<open>Car\<close> on each side.\<close>

definition car_ground_truth :: document where
  "car_ground_truth =
     \<lparr>classes = [\<lparr>class_name = Some ''Car'', attributes = [''+speed: int''], operations = []\<rparr>],
      enumerations = [],
      relationships = (\<lambda>rt. [])\<rparr>"

definition car_prediction :: document where
  "car_prediction =
     \<lparr>classes = [\<lparr>class_name = Some ''Car'', attributes = [''+speed: int[1]''], operations = []\<rparr>],
      enumerations = [],
      relationships = (\<lambda>rt. [])\<rparr>"

text \<open>
  Two documents that agree on their one class and on none of their three
  dependencies.
\<close>

definition dependency :: "string \<Rightarrow> string \<Rightarrow> rel_record" where
  "dependency a b = [''dependent'' \<mapsto> a, ''supplier'' \<mapsto> b]"

definition fleet_ground_truth :: document where
  "fleet_ground_truth =
     \<lparr>classes = [\<lparr>class_name = Some ''Car'', attributes = [], operations = []\<rparr>],
      enumerations = [],
      relationships = (\<lambda>rt. if rt = ''dependency''
                             then [dependency ''A'' ''X'', dependency ''B'' ''X'', dependency ''C'' ''X'']
                             else [])\<rparr>"

definition fleet_prediction :: document where
  "fleet_prediction =
     \<lparr>classes = [\<lparr>class_name = Some ''Car'', attributes = [], operations = []\<rparr>],
      enumerations = [],
      relationships = (\<lambda>rt. if rt = ''dependency''
                             then [dependency ''A'' ''Y'', dependency ''B'' ''Y'', dependency ''C'' ''Y'']
                             else [])\<rparr>"

text \<open>
  A class and an enumeration that share the name \<open>Color\<close>, and a document with the
  enumeration alone.
\<close>

definition color_document :: document where
  "color_document =
     \<lparr>classes = [\<lparr>class_name = Some ''Color'', attributes = [''+red: int''], operations = [''+mix()'']\<rparr>],
      enumerations = [\<lparr>enum_name = Some ''Color'', literals = [''RED'']\<rparr>],
      relationships = (\<lambda>rt. [])\<rparr>"

definition color_enumeration :: document where
  "color_enumeration =
     \<lparr>classes = [],
      enumerations = [\<lparr>enum_name = Some ''Color'', literals = [''RED'']\<rparr>],
      relationships = (\<lambda>rt. [])\<rparr>"

text \<open>
  Two more predictions for the name \<open>Color\<close>: an enumeration with another literal,
  and the class of \<open>color_document\<close> without the enumeration.
\<close>

definition color_blue :: document where
  "color_blue =
     \<lparr>classes = [],
      enumerations = [\<lparr>enum_name = Some ''Color'', literals = [''BLUE'']\<rparr>],
      relationships = (\<lambda>rt. [])\<rparr>"

definition color_class :: document where
  "color_class =
     \<lparr>classes = [\<lparr>class_name = Some ''Color'', attributes = [''+red: int''], operations = [''+mix()'']\<rparr>],
      enumerations = [],
      relationships = (\<lambda>rt. [])\<rparr>"

section \<open>Strings\<close>

lemma dropWhile_keep: "\<not> P y \<Longrightarrow> dropWhile P (xs @ y # ys) = dropWhile P xs @ y # ys"
  by (induction xs) auto

lemma rstrip_rstrip: "rstrip (rstrip s) = rstrip s"
  by (simp add: rstrip_def)

lemma strip_rstrip: "strip (rstrip s) = strip s"
  by (simp add: strip_def rstrip_rstrip)

lemma rstrip_last: "rstrip s \<noteq> [] \<Longrightarrow> \<not> is_space (last (rstrip s))"
  unfolding rstrip_def using hd_dropWhile [of is_space "rev s"]
  by (simp add: last_rev)

lemma rstrip_fixed: "s \<noteq> [] \<Longrightarrow> \<not> is_space (last s) \<Longrightarrow> rstrip s = s"
proof -
  assume "s \<noteq> []" "\<not> is_space (last s)"
  then obtain ys y where s: "s = ys @ [y]" and y: "\<not> is_space y"
    by (metis append_butlast_last_id)
  show ?thesis by (simp add: s y rstrip_def)
qed

lemma lstrip_fixed: "s \<noteq> [] \<Longrightarrow> \<not> is_space (hd s) \<Longrightarrow> lstrip s = s"
  by (cases s) (simp_all add: lstrip_def)

lemma lstrip_last: "lstrip s \<noteq> [] \<Longrightarrow> last (lstrip s) = last s"
proof -
  assume ne: "lstrip s \<noteq> []"
  have "s = takeWhile is_space s @ lstrip s" by (simp add: lstrip_def)
  then have "last s = last (takeWhile is_space s @ lstrip s)" by simp
  also have "\<dots> = last (lstrip s)" using ne by simp
  finally show ?thesis by simp
qed

lemma strip_strip: "strip (strip s) = strip s"
proof (cases "strip s = []")
  case True
  have "strip [] = []" by (simp add: strip_def lstrip_def rstrip_def)
  with True show ?thesis by simp
next
  case False
  then have ne: "lstrip (rstrip s) \<noteq> []" by (simp add: strip_def)
  then have r: "rstrip s \<noteq> []" by (auto simp: lstrip_def)
  have "last (strip s) = last (rstrip s)" using lstrip_last [OF ne] by (simp add: strip_def)
  then have l: "\<not> is_space (last (strip s))" using rstrip_last [OF r] by simp
  have h: "\<not> is_space (hd (strip s))"
    using ne hd_dropWhile [of is_space "rstrip s"] by (simp add: strip_def lstrip_def)
  have "rstrip (strip s) = strip s" using False l by (rule rstrip_fixed)
  then have "strip (strip s) = lstrip (strip s)" by (simp add: strip_def [of "strip s"])
  also have "\<dots> = strip s" using False h by (rule lstrip_fixed)
  finally show ?thesis .
qed

lemma set_strip: "set (strip s) \<subseteq> set s"
proof -
  have "set (strip s) \<subseteq> set (rstrip s)"
    unfolding strip_def lstrip_def by (rule set_dropWhileD [THEN subsetI]) 
  also have "\<dots> \<subseteq> set s"
    unfolding rstrip_def using set_dropWhileD [of _ is_space "rev s"] by auto
  finally show ?thesis .
qed

section \<open>Multiplicity normalization\<close>

lemmas strip_eval = strip_def lstrip_def rstrip_def is_space_def

lemma normalize_canonical:
  "normalize_multiplicity ''1..1'' = ''1..1''"
  "normalize_multiplicity ''0..*'' = ''0..*''"
  "normalize_multiplicity ''1..*'' = ''1..*''"
  by (simp_all add: normalize_multiplicity_def strip_eval)

text \<open>
  C9, amended. Normalizing twice is the same as normalizing once for every string
  that is empty or has a character that is not whitespace; \<open>"*"\<close> normalizes to
  \<open>"0..*"\<close>, which normalizes to itself. (A non-empty string of whitespace only
  normalizes to the empty string, and the empty string to \<open>"1..1"\<close>.)
\<close>

theorem normalize_multiplicity_idempotent:
  "(s = [] \<or> strip s \<noteq> [] \<longrightarrow>
      normalize_multiplicity (normalize_multiplicity s) = normalize_multiplicity s)
   \<and> normalize_multiplicity ''*'' = ''0..*''
   \<and> normalize_multiplicity ''0..*'' = ''0..*''"
proof (intro conjI impI)
  assume a: "s = [] \<or> strip s \<noteq> []"
  show "normalize_multiplicity (normalize_multiplicity s) = normalize_multiplicity s"
  proof (cases "s = []")
    case True
    then show ?thesis by (simp add: normalize_multiplicity_def strip_eval)
  next
    case False
    with a have ne: "strip s \<noteq> []" by simp
    consider "strip s = ''1''" | "strip s = ''*'' \<or> strip s = ''..*''" | "strip s = ''1..''"
      | "strip s \<noteq> ''1''" "strip s \<noteq> ''*''" "strip s \<noteq> ''..*''" "strip s \<noteq> ''1..''"
      by blast
    then show ?thesis
    proof cases
      case 1
      then have "normalize_multiplicity s = ''1..1''"
        using False by (simp add: normalize_multiplicity_def)
      then show ?thesis by (simp add: normalize_canonical)
    next
      case 2
      then have "normalize_multiplicity s = ''0..*''"
        using False by (auto simp: normalize_multiplicity_def)
      then show ?thesis by (simp add: normalize_canonical)
    next
      case 3
      then have "normalize_multiplicity s = ''1..*''"
        using False by (simp add: normalize_multiplicity_def)
      then show ?thesis by (simp add: normalize_canonical)
    next
      case 4
      then have n: "normalize_multiplicity s = strip s"
        using False by (simp add: normalize_multiplicity_def)
      have "normalize_multiplicity (strip s) = strip s"
        using 4 ne by (simp add: normalize_multiplicity_def strip_strip)
      with n show ?thesis by simp
    qed
  qed
next
  show "normalize_multiplicity ''*'' = ''0..*''"
    by (simp add: normalize_multiplicity_def strip_eval)
  show "normalize_multiplicity ''0..*'' = ''0..*''"
    by (simp add: normalize_multiplicity_def strip_eval)
qed

theorem normalize_multiplicity_idempotent_witness:
  "strip ''  2..5 '' \<noteq> []
   \<and> normalize_multiplicity ''  2..5 '' = ''2..5''
   \<and> normalize_multiplicity (normalize_multiplicity ''  2..5 '') = normalize_multiplicity ''  2..5 ''"
  using normalize_multiplicity_idempotent [of "''  2..5 ''"]
  by (simp add: normalize_multiplicity_def strip_eval)

theorem normalize_multiplicity_blank_counterexample:
  "normalize_multiplicity (normalize_multiplicity '' '') \<noteq> normalize_multiplicity '' ''"
  by (simp add: normalize_multiplicity_def strip_eval)

section \<open>Associations\<close>

text \<open>
  C1. The claim: a bidirectional association from \<open>A\<close> to \<open>B\<close> with multiplicities
  \<open>(m1, m2)\<close> and the reversed record from \<open>B\<close> to \<open>A\<close> with multiplicities
  \<open>(m2, m1)\<close> have the same key. The code orders the pair of endpoints and leaves the
  multiplicities in the order (target, source) of the record: for \<open>A\<close>, \<open>B\<close>,
  \<open>"1"\<close> and \<open>"*"\<close> the two keys differ.
\<close>

theorem parse_association_reversed_differs:
  "parse_association assoc_forward = Inr ((''A'', ''B''), ''0..*'', ''1..1'')
   \<and> parse_association assoc_reversed = Inr ((''A'', ''B''), ''1..1'', ''0..*'')
   \<and> parse_association assoc_forward \<noteq> parse_association assoc_reversed"
  by (simp add: parse_association_def assoc_forward_def assoc_reversed_def get_default_def
      normalize_multiplicity_def strip_eval)

text \<open>
  In general the two records agree on the ordered pair of endpoints, and their
  multiplicities are each other's mirror image.
\<close>

lemma parse_association_bidirectional:
  "parse_association [''source'' \<mapsto> a, ''target'' \<mapsto> b, ''direction'' \<mapsto> ''bidirectional'',
       ''multiplicity_source'' \<mapsto> m1, ''multiplicity_target'' \<mapsto> m2]
     = Inr ((min a b, max a b), normalize_multiplicity m2, normalize_multiplicity m1)"
  by (auto simp: parse_association_def get_default_def Let_def min_def max_def)

section \<open>Attributes\<close>

text \<open>
  C2. The claim: an attribute without a bracketed multiplicity has the multiplicity
  \<open>"1..1"\<close>. The code returns its initial value \<open>'1'\<close>, which is not normalized:
  \<open>parse_attribute("age")\<close> is \<open>("+", "age", "", "1")\<close>. The second example of the
  claim holds.
\<close>

theorem parse_attribute_examples:
  "parse_attribute ''age'' = (''+'', ''age'', '''', ''1'')
   \<and> parse_attribute ''+name: Type[0..*]'' = (''+'', ''name'', ''Type'', ''0..*'')"
  by (simp add: parse_attribute_def take_visibility_def endswith_def rfind_def slice_def
      slice_upto_def slice_bound_def split_once_def normalize_multiplicity_def strip_eval)

lemma set_take_visibility: "set (snd (take_visibility s)) \<subseteq> set s"
  using set_strip by (auto simp: take_visibility_def split: list.splits)

text \<open>The multiplicity is \<open>'1'\<close> for every raw string without an opening bracket.\<close>

lemma parse_attribute_default_multiplicity:
  assumes "CHR ''['' \<notin> set raw"
  shows "snd (snd (snd (parse_attribute raw))) = ''1''"
proof -
  obtain vis attr where tv: "take_visibility (strip raw) = (vis, attr)"
    by (cases "take_visibility (strip raw)")
  have "set attr \<subseteq> set raw"
    using set_take_visibility [of "strip raw"] set_strip [of raw] tv by auto
  with assms have "CHR ''['' \<notin> set attr" by blast
  then show ?thesis
    by (simp add: parse_attribute_def tv Let_def split: prod.splits)
qed

section \<open>Metric computation\<close>

lemma round_half_even_nonneg: "0 \<le> x \<Longrightarrow> 0 \<le> round_half_even x"
  by (simp add: round_half_even_def Let_def)

lemma round_half_even_zero_iff: "0 \<le> x \<Longrightarrow> round_half_even x = 0 \<longleftrightarrow> x \<le> 1 / 2"
proof -
  assume x: "0 \<le> x"
  show ?thesis
  proof (cases "x < 1")
    case True
    with x have "\<lfloor>x\<rfloor> = 0" by (simp add: floor_eq_iff)
    then show ?thesis by (simp add: round_half_even_def Let_def)
  next
    case False
    then have "1 \<le> \<lfloor>x\<rfloor>" by (simp add: le_floor_iff)
    moreover have "round_half_even x = \<lfloor>x\<rfloor> \<or> round_half_even x = \<lfloor>x\<rfloor> + 1"
      by (simp add: round_half_even_def Let_def)
    ultimately have "round_half_even x \<noteq> 0" by linarith
    with False show ?thesis by simp
  qed
qed

lemma round4_zero: "round4 0 = 0"
  by (simp add: round4_def round_half_even_def)

lemma round4_nonneg: "0 \<le> x \<Longrightarrow> 0 \<le> round4 x"
  by (simp add: round4_def round_half_even_nonneg)

lemma round4_zero_iff: "0 \<le> x \<Longrightarrow> round4 x = 0 \<longleftrightarrow> x \<le> 1 / 20000"
proof -
  assume x: "0 \<le> x"
  have "x * 10000 \<le> 1 / 2 \<longleftrightarrow> x \<le> 1 / 20000" by auto
  then show ?thesis
    using x round_half_even_zero_iff [of "x * 10000"] by (simp add: round4_def)
qed

lemma harmonic_le:
  fixes p r :: rat
  assumes "0 \<le> p" "0 \<le> r" "0 < p + r" "p \<le> c" "r \<le> c"
  shows "2 * p * r / (p + r) \<le> c"
proof -
  have "p * r \<le> c * r" using assms by (simp add: mult_right_mono)
  moreover have "p * r \<le> p * c" using assms by (simp add: mult_left_mono)
  ultimately have "2 * p * r \<le> c * (p + r)" by (simp add: algebra_simps)
  then show ?thesis using assms(3) by (simp add: pos_divide_le_eq)
qed

lemma calc_prf_value:
  "calc_prf true_n pred_n match_n =
     Inr \<lparr>precision = round4 (if pred_n > 0 then of_nat match_n / of_nat pred_n else 0),
          recall = round4 (if true_n > 0 then of_nat match_n / of_nat true_n else 0),
          f1 = round4 (let p = (if pred_n > 0 then of_nat match_n / of_nat pred_n else 0);
                           r = (if true_n > 0 then of_nat match_n / of_nat true_n else 0)
                       in if p + r > 0 then 2 * p * r / (p + r) else 0)\<rparr>"
  by (simp add: calc_prf_def py_div_def Let_def)

text \<open>
  C8. For all counts \<open>calc_prf\<close> returns a triple, without a division by zero:
  the precision is 0 when \<open>pred_n\<close> is 0, the recall is 0 when \<open>true_n\<close> is 0, the
  F1 is 0 when the precision and the recall (as reported, after rounding) add up to
  0, and all three are 0 when both counts are 0.
\<close>

theorem calc_prf_boundary:
  "\<exists>res. calc_prf true_n pred_n match_n = Inr res
     \<and> (pred_n = 0 \<longrightarrow> precision res = 0)
     \<and> (true_n = 0 \<longrightarrow> recall res = 0)
     \<and> (precision res + recall res = 0 \<longrightarrow> f1 res = 0)
     \<and> (true_n = 0 \<and> pred_n = 0 \<longrightarrow> precision res = 0 \<and> recall res = 0 \<and> f1 res = 0)"
proof -
  define p :: rat where "p = (if pred_n > 0 then of_nat match_n / of_nat pred_n else 0)"
  define r :: rat where "r = (if true_n > 0 then of_nat match_n / of_nat true_n else 0)"
  define f :: rat where "f = (if p + r > 0 then 2 * p * r / (p + r) else 0)"
  define res where "res = \<lparr>precision = round4 p, recall = round4 r, f1 = round4 f\<rparr>"
  have val: "calc_prf true_n pred_n match_n = Inr res"
    by (simp add: calc_prf_value res_def f_def p_def r_def Let_def)
  have p0: "0 \<le> p" and r0: "0 \<le> r" by (simp_all add: p_def r_def)
  have a: "pred_n = 0 \<longrightarrow> precision res = 0"
    by (simp add: res_def p_def round4_zero)
  have b: "true_n = 0 \<longrightarrow> recall res = 0"
    by (simp add: res_def r_def round4_zero)
  have c: "precision res + recall res = 0 \<longrightarrow> f1 res = 0"
  proof
    assume "precision res + recall res = 0"
    then have s: "round4 p + round4 r = 0" by (simp add: res_def)
    have "round4 p = 0" "round4 r = 0"
      using s round4_nonneg [OF p0] round4_nonneg [OF r0] by linarith+
    then have le: "p \<le> 1 / 20000" "r \<le> 1 / 20000"
      using round4_zero_iff [OF p0] round4_zero_iff [OF r0] by simp_all
    have "round4 f = 0"
    proof (cases "p + r > 0")
      case True
      then have "f \<le> 1 / 20000" "0 \<le> f"
        using harmonic_le [OF p0 r0 True le] p0 r0 by (simp_all add: f_def)
      then show ?thesis using round4_zero_iff [of f] by simp
    next
      case False
      then show ?thesis by (simp add: f_def round4_zero)
    qed
    then show "f1 res = 0" by (simp add: res_def)
  qed
  have d: "true_n = 0 \<and> pred_n = 0 \<longrightarrow> precision res = 0 \<and> recall res = 0 \<and> f1 res = 0"
    by (simp add: res_def p_def r_def f_def round4_zero)
  from val a b c d show ?thesis by blast
qed

theorem calc_prf_boundary_witness:
  "calc_prf 0 0 0 = Inr \<lparr>precision = 0, recall = 0, f1 = 0\<rparr>
   \<and> (\<exists>res. calc_prf 3 0 0 = Inr res \<and> precision res = 0 \<and> precision res + recall res = 0 \<and> f1 res = 0)"
  using calc_prf_boundary [of 0 0 0] calc_prf_boundary [of 3 0 0]
  by (auto simp: calc_prf_value round4_zero)

section \<open>The end-to-end example\<close>

text \<open>
  C3. The claim: with \<open>"+speed: int"\<close> in the ground truth and \<open>"+speed: int[1]"\<close>
  in the prediction, \<open>Car\<close> is matched and the class metrics are all 1. The code
  gives the first attribute the multiplicity \<open>'1'\<close> and the second \<open>'1..1'\<close>, so
  \<open>Car\<close> is not matched and the class metrics are all 0.
\<close>

theorem car_example_unmatched:
  "(case compute_metrics car_ground_truth car_prediction of
      Inl e \<Rightarrow> False
    | Inr (m, w) \<Rightarrow>
        class_metrics m = \<lparr>precision = 0, recall = 0, f1 = 0\<rparr>
        \<and> counts m = \<lparr>true_classes_and_enums = 1, predicted_classes_and_enums = 1,
                      matched_classes_and_enums = 0, true_relationships = 0,
                      predicted_relationships = 0, matched_relationships = 0\<rparr>
        \<and> detailed_class_matching m =
            \<lparr>matched = [], mismatched_in_ground_truth = [''Car''], extra_in_prediction = [''Car'']\<rparr>)"
  by code_simp

section \<open>Relationship extraction\<close>












section \<open>Element universes and matching\<close>

text \<open>The only failure of loading is a class or an enumeration without a name.\<close>

lemma load_classes_error: "load_classes cs els = Inl e \<Longrightarrow> e = KeyError ''name''"
  by (induction cs arbitrary: els) (auto split: option.splits)

lemma load_enums_error: "load_enums es els = Inl e \<Longrightarrow> e = KeyError ''name''"
  by (induction es arbitrary: els) (auto split: option.splits)

lemma load_classes_distinct:
  "load_classes cs els = Inr r \<Longrightarrow> distinct (map fst els) \<Longrightarrow> distinct (map fst r)"
  by (induction cs arbitrary: els) (auto split: option.splits simp: distinct_update)

lemma load_enums_distinct:
  "load_enums es els = Inr r \<Longrightarrow> distinct (map fst els) \<Longrightarrow> distinct (map fst r)"
  by (induction es arbitrary: els) (auto split: option.splits simp: distinct_update)

lemma element_universe_distinct: "element_universe d = Inr els \<Longrightarrow> distinct (map fst els)"
  unfolding element_universe_def
  by (auto split: sum.splits dest!: load_classes_distinct load_enums_distinct)

text \<open>
  \<open>compute_metrics\<close> loads the classes of both documents before the
  enumerations of either; the result is that of building each universe in turn.
\<close>

lemma compute_metrics_universes:
  "compute_metrics t p =
     (case element_universe t of
        Inl e \<Rightarrow> Inl e
      | Inr true_elements \<Rightarrow>
     (case element_universe p of
        Inl e \<Rightarrow> Inl e
      | Inr pred_elements \<Rightarrow> score true_elements pred_elements t p))"
  unfolding compute_metrics_def element_universe_def
  by (auto split: sum.splits dest!: load_classes_error load_enums_error)

text \<open>What the result holds, in terms of the two universes and the two documents.\<close>

lemma score_value:
  "score te pe t p = Inr (m, w) \<Longrightarrow>
     detailed_class_matching m =
       \<lparr>matched = sorted_list_of_set (match_elements te pe),
        mismatched_in_ground_truth = sorted_list_of_set (set (map fst te) - match_elements te pe),
        extra_in_prediction = sorted_list_of_set (set (map fst pe) - match_elements te pe)\<rparr>
     \<and> counts m =
       \<lparr>true_classes_and_enums = length te,
        predicted_classes_and_enums = length pe,
        matched_classes_and_enums = card (match_elements te pe),
        true_relationships =
          sum_list (map (\<lambda>rt. card (fst (process_relationships (relationships t rt) rt))) rel_types),
        predicted_relationships =
          sum_list (map (\<lambda>rt. card (fst (process_relationships (relationships p rt) rt))) rel_types),
        matched_relationships =
          sum_list (map (\<lambda>rt. card (fst (process_relationships (relationships t rt) rt)
                                   \<inter> fst (process_relationships (relationships p rt) rt))) rel_types)\<rparr>
     \<and> calc_prf (length te) (length pe) (card (match_elements te pe)) = Inr (class_metrics m)
     \<and> calc_prf
          (sum_list (map (\<lambda>rt. card (fst (process_relationships (relationships t rt) rt))) rel_types))
          (sum_list (map (\<lambda>rt. card (fst (process_relationships (relationships p rt) rt))) rel_types))
          (sum_list (map (\<lambda>rt. card (fst (process_relationships (relationships t rt) rt)
                                   \<inter> fst (process_relationships (relationships p rt) rt))) rel_types))
         = Inr (relationship_metrics m)
     \<and> calc_prf
          (length te
             + sum_list (map (\<lambda>rt. card (fst (process_relationships (relationships t rt) rt))) rel_types))
          (length pe
             + sum_list (map (\<lambda>rt. card (fst (process_relationships (relationships p rt) rt))) rel_types))
          (card (match_elements te pe)
             + sum_list (map (\<lambda>rt. card (fst (process_relationships (relationships t rt) rt)
                                        \<inter> fst (process_relationships (relationships p rt) rt))) rel_types))
         = Inr (overall_metrics m)"
  unfolding score_def Let_def
  by (auto split: sum.splits)

lemma finite_match_elements: "finite (match_elements te pe)"
  by (simp add: match_elements_def)

lemma match_elements_iff:
  assumes "distinct (map fst te)"
  shows "n \<in> match_elements te pe \<longleftrightarrow>
           (\<exists>a b. map_of te n = Some a \<and> map_of pe n = Some b
                  \<and> attrs a = attrs b \<and> ops a = ops b)"
  using assms
  by (auto simp: match_elements_def image_iff split: option.splits)


text \<open>
  C4. For a name present in both universes, the name is in the matched list (whose
  length is the matched count) exactly when the two attribute sets are equal and the
  two operation sets are equal; otherwise it is in both
  \<open>mismatched_in_ground_truth\<close> and \<open>extra_in_prediction\<close>.
\<close>

theorem matched_iff_equal_members:
  assumes "compute_metrics t p = Inr (m, w)"
    and "element_universe t = Inr te" and "element_universe p = Inr pe"
    and "map_of te n = Some a" and "map_of pe n = Some b"
  shows "(n \<in> set (matched (detailed_class_matching m)) \<longleftrightarrow> attrs a = attrs b \<and> ops a = ops b)
       \<and> (\<not> (attrs a = attrs b \<and> ops a = ops b) \<longrightarrow>
            n \<in> set (mismatched_in_ground_truth (detailed_class_matching m))
          \<and> n \<in> set (extra_in_prediction (detailed_class_matching m)))
       \<and> matched_classes_and_enums (counts m) = length (matched (detailed_class_matching m))"
proof -
  have sc: "score te pe t p = Inr (m, w)"
    using assms(1-3) by (simp add: compute_metrics_universes)
  note v = score_value [OF sc]
  have d: "distinct (map fst te)" using assms(2) by (rule element_universe_distinct)
  have mem: "n \<in> match_elements te pe \<longleftrightarrow> attrs a = attrs b \<and> ops a = ops b"
    using assms(4,5) by (simp add: match_elements_iff [OF d])
  have nt: "n \<in> set (map fst te)" using assms(4) by (force dest: map_of_SomeD)
  have np: "n \<in> set (map fst pe)" using assms(5) by (force dest: map_of_SomeD)
  have 1: "n \<in> set (matched (detailed_class_matching m)) \<longleftrightarrow> attrs a = attrs b \<and> ops a = ops b"
    using v mem by (simp add: finite_match_elements)
  have 2: "\<not> (attrs a = attrs b \<and> ops a = ops b) \<longrightarrow>
            n \<in> set (mismatched_in_ground_truth (detailed_class_matching m))
          \<and> n \<in> set (extra_in_prediction (detailed_class_matching m))"
    using v mem nt np by simp
  have 3: "matched_classes_and_enums (counts m) = length (matched (detailed_class_matching m))"
    using v by simp
  from 1 2 3 show ?thesis by blast
qed


text \<open>Scoring never fails: the only failure of \<open>compute_metrics\<close> is a missing name.\<close>

lemma score_total: "\<exists>m w. score te pe t p = Inr (m, w)"
  by (simp add: score_def Let_def calc_prf_value)

lemma compute_metrics_total:
  "element_universe t = Inr te \<Longrightarrow> element_universe p = Inr pe \<Longrightarrow>
     \<exists>m w. compute_metrics t p = Inr (m, w)"
  by (simp add: compute_metrics_universes score_total)

lemma car_universes:
  "element_universe car_ground_truth =
     Inr [(''Car'', \<lparr>kind = ''class'', attrs = {(''+'', ''speed'', ''int'', ''1'')}, ops = {}\<rparr>)]"
  "element_universe car_prediction =
     Inr [(''Car'', \<lparr>kind = ''class'', attrs = {(''+'', ''speed'', ''int'', ''1..1'')}, ops = {}\<rparr>)]"
  by (simp_all add: element_universe_def car_ground_truth_def car_prediction_def
      class_element_def parse_attribute_def take_visibility_def endswith_def rfind_def slice_def
      slice_upto_def slice_bound_def split_once_def normalize_multiplicity_def strip_eval)

theorem matched_iff_equal_members_witness:
  "\<exists>m w. compute_metrics car_ground_truth car_prediction = Inr (m, w)
     \<and> ''Car'' \<notin> set (matched (detailed_class_matching m))
     \<and> ''Car'' \<in> set (mismatched_in_ground_truth (detailed_class_matching m))
     \<and> ''Car'' \<in> set (extra_in_prediction (detailed_class_matching m))"
proof -
  obtain m w where c: "compute_metrics car_ground_truth car_prediction = Inr (m, w)"
    using compute_metrics_total [OF car_universes] by blast
  show ?thesis
    using matched_iff_equal_members [OF c car_universes, of "''Car''"] c by simp
qed

section \<open>A class and an enumeration of the same name\<close>

lemma load_enums_append:
  "load_enums (xs @ ys) els =
     (case load_enums xs els of Inl e \<Rightarrow> Inl e | Inr mid \<Rightarrow> load_enums ys mid)"
  by (induction xs arbitrary: els) (auto split: option.splits)

lemma load_enums_other:
  "load_enums es els = Inr r \<Longrightarrow> \<forall>e \<in> set es. enum_name e \<noteq> Some n \<Longrightarrow>
     map_of r n = map_of els n"
proof (induction es arbitrary: els)
  case Nil
  then show ?case by simp
next
  case (Cons e es)
  then obtain k where k: "enum_name e = Some k" and kn: "k \<noteq> n"
    by (cases "enum_name e") auto
  from Cons.prems(1) k obtain v where
    rest: "load_enums es (AList.update k v els) = Inr r" by auto
  have "map_of r n = map_of (AList.update k v els) n"
    using Cons.IH [OF rest] Cons.prems(2) by simp
  also have "\<dots> = map_of els n" using kn by (simp add: update_conv')
  finally show ?case .
qed

lemma load_classes_keys:
  "load_classes cs els = Inr r \<Longrightarrow>
     set (map fst r) = set (map fst els) \<union> {n. \<exists>c \<in> set cs. class_name c = Some n}"
proof (induction cs arbitrary: els)
  case Nil
  then show ?case by simp
next
  case (Cons c cs)
  then obtain k where k: "class_name c = Some k" by (cases "class_name c") auto
  from Cons.prems k obtain v where
    rest: "load_classes cs (AList.update k v els) = Inr r" by auto
  show ?case using Cons.IH [OF rest] k by (auto simp: dom_update)
qed

lemma load_enums_keys:
  "load_enums es els = Inr r \<Longrightarrow>
     set (map fst r) = set (map fst els) \<union> {n. \<exists>e \<in> set es. enum_name e = Some n}"
proof (induction es arbitrary: els)
  case Nil
  then show ?case by simp
next
  case (Cons e es)
  then obtain k where k: "enum_name e = Some k" by (cases "enum_name e") auto
  from Cons.prems k obtain v where
    rest: "load_enums es (AList.update k v els) = Inr r" by auto
  show ?case using Cons.IH [OF rest] k by (auto simp: dom_update)
qed

lemma element_universe_keys:
  assumes "element_universe d = Inr els"
  shows "set (map fst els) = {n. \<exists>c \<in> set (classes d). class_name c = Some n}
                           \<union> {n. \<exists>e \<in> set (enumerations d). enum_name e = Some n}"
proof -
  from assms obtain mid where c: "load_classes (classes d) [] = Inr mid"
    and e: "load_enums (enumerations d) mid = Inr els"
    by (auto simp: element_universe_def split: sum.splits)
  show ?thesis using load_classes_keys [OF c] load_enums_keys [OF e] by simp
qed

lemma element_universe_length:
  assumes "element_universe d = Inr els"
  shows "length els = card ({n. \<exists>c \<in> set (classes d). class_name c = Some n}
                           \<union> {n. \<exists>e \<in> set (enumerations d). enum_name e = Some n})"
proof -
  have "length els = length (map fst els)" by simp
  also have "\<dots> = card (set (map fst els))"
    using element_universe_distinct [OF assms] by (simp only: distinct_card)
  finally show ?thesis by (simp only: element_universe_keys [OF assms])
qed

lemma element_universe_enum:
  assumes "element_universe d = Inr els"
    and "enumerations d = before @ e # after"
    and "enum_name e = Some n"
    and "\<forall>e' \<in> set after. enum_name e' \<noteq> Some n"
  shows "map_of els n = Some (enum_element e)"
proof -
  from assms(1) obtain mid where
    l: "load_enums (before @ e # after) mid = Inr els"
    by (auto simp: element_universe_def assms(2) split: sum.splits)
  then obtain mid' where "load_enums (e # after) mid' = Inr els"
    by (auto simp: load_enums_append split: sum.splits)
  then have r: "load_enums after (AList.update n (enum_element e) mid') = Inr els"
    using assms(3) by simp
  have "map_of els n = map_of (AList.update n (enum_element e) mid') n"
    using load_enums_other [OF r assms(4)] .
  then show ?thesis by (simp add: update_conv')
qed

lemma distinct_count_list: "distinct xs \<Longrightarrow> count_list xs x = (if x \<in> set xs then 1 else 0)"
  by (induction xs) auto

text \<open>
  C10. When a document has a class named \<open>n\<close> and an enumeration named \<open>n\<close>
  (\<open>e\<close>, the last of that name), its universe holds under \<open>n\<close> an element of
  kind \<open>enum\<close> whose attributes are the tuples \<open>('+', lit, '', '1')\<close> of the
  literals of \<open>e\<close> and whose operation set is empty; the name occurs once among the
  keys, and the element count is the number of distinct names. Whether the document
  is the ground truth or the prediction, \<open>n\<close> is matched exactly when the other
  side has that set of literal tuples as attributes and no operations: the members
  of the class are not compared.
\<close>

theorem enumeration_overwrites_class:
  assumes "c \<in> set (classes d)" and "class_name c = Some n"
    and "enumerations d = before @ e # after" and "enum_name e = Some n"
    and "\<forall>e' \<in> set after. enum_name e' \<noteq> Some n"
    and "element_universe d = Inr els" and "element_universe p = Inr pe"
    and "compute_metrics d p = Inr (m, w)" and "compute_metrics p d = Inr (m', w')"
  shows "map_of els n =
           Some \<lparr>kind = ''enum'',
                 attrs = (\<lambda>lit. (''+'', lit, '''', ''1'')) ` set (literals e),
                 ops = {}\<rparr>
       \<and> count_list (map fst els) n = 1
       \<and> true_classes_and_enums (counts m) = length els
       \<and> predicted_classes_and_enums (counts m') = length els
       \<and> length els = card ({k. \<exists>c \<in> set (classes d). class_name c = Some k}
                             \<union> {k. \<exists>e \<in> set (enumerations d). enum_name e = Some k})
       \<and> (n \<in> set (matched (detailed_class_matching m)) \<longleftrightarrow>
            (\<exists>b. map_of pe n = Some b
                 \<and> attrs b = (\<lambda>lit. (''+'', lit, '''', ''1'')) ` set (literals e)
                 \<and> ops b = {}))
       \<and> (n \<in> set (matched (detailed_class_matching m')) \<longleftrightarrow>
            (\<exists>b. map_of pe n = Some b
                 \<and> attrs b = (\<lambda>lit. (''+'', lit, '''', ''1'')) ` set (literals e)
                 \<and> ops b = {}))"
proof -
  let ?lits = "(\<lambda>lit. (''+'', lit, '''', ''1'')) ` set (literals e)"
  have "map_of els n = Some (enum_element e)"
    using assms(6,3,4,5) by (rule element_universe_enum)
  then have look: "map_of els n = Some \<lparr>kind = ''enum'', attrs = ?lits, ops = {}\<rparr>"
    by (simp add: enum_element_def)
  have d: "distinct (map fst els)" using assms(6) by (rule element_universe_distinct)
  have dp: "distinct (map fst pe)" using assms(7) by (rule element_universe_distinct)
  have "n \<in> set (map fst els)" using look by (force dest: map_of_SomeD)
  then have one: "count_list (map fst els) n = 1" using d by (simp add: distinct_count_list)
  have sc: "score els pe d p = Inr (m, w)"
    using assms(6,7,8) by (simp add: compute_metrics_universes)
  have sc': "score pe els p d = Inr (m', w')"
    using assms(6,7,9) by (simp add: compute_metrics_universes)
  note v = score_value [OF sc] and v' = score_value [OF sc']
  have len: "true_classes_and_enums (counts m) = length els" using v by simp
  have len': "predicted_classes_and_enums (counts m') = length els" using v' by simp
  have m1: "n \<in> set (matched (detailed_class_matching m)) \<longleftrightarrow>
            (\<exists>b. map_of pe n = Some b \<and> attrs b = ?lits \<and> ops b = {})"
    using v look by (auto simp: finite_match_elements match_elements_iff [OF d])
  have m2: "n \<in> set (matched (detailed_class_matching m')) \<longleftrightarrow>
            (\<exists>b. map_of pe n = Some b \<and> attrs b = ?lits \<and> ops b = {})"
    using v' look by (auto simp: finite_match_elements match_elements_iff [OF dp])
  from look one len len' element_universe_length [OF assms(6)] m1 m2 show ?thesis by blast
qed

lemma color_universe:
  "element_universe color_document =
     Inr [(''Color'', \<lparr>kind = ''enum'', attrs = {(''+'', ''RED'', '''', ''1'')}, ops = {}\<rparr>)]"
  "element_universe color_enumeration =
     Inr [(''Color'', \<lparr>kind = ''enum'', attrs = {(''+'', ''RED'', '''', ''1'')}, ops = {}\<rparr>)]"
  "element_universe color_blue =
     Inr [(''Color'', \<lparr>kind = ''enum'', attrs = {(''+'', ''BLUE'', '''', ''1'')}, ops = {}\<rparr>)]"
  "element_universe color_class =
     Inr [(''Color'', \<lparr>kind = ''class'', attrs = {(''+'', ''red'', ''int'', ''1'')},
                       ops = {(''+'', ''mix'', [], ''void'')}\<rparr>)]"
  by (simp_all add: element_universe_def color_document_def color_enumeration_def
      color_blue_def color_class_def enum_element_def class_element_def)
     code_simp+

theorem enumeration_overwrites_class_witness:
  "(\<exists>m w. compute_metrics color_document color_enumeration = Inr (m, w)
       \<and> true_classes_and_enums (counts m) = 1
       \<and> ''Color'' \<in> set (matched (detailed_class_matching m)))
   \<and> (\<exists>m w. compute_metrics color_enumeration color_document = Inr (m, w)
       \<and> predicted_classes_and_enums (counts m) = 1
       \<and> ''Color'' \<in> set (matched (detailed_class_matching m)))
   \<and> (\<exists>m w. compute_metrics color_document color_blue = Inr (m, w)
       \<and> ''Color'' \<notin> set (matched (detailed_class_matching m)))
   \<and> (\<exists>m w. compute_metrics color_document color_class = Inr (m, w)
       \<and> ''Color'' \<notin> set (matched (detailed_class_matching m)))"
proof -
  let ?c = "\<lparr>class_name = Some ''Color'', attributes = [''+red: int''], operations = [''+mix()'']\<rparr>"
  let ?e = "\<lparr>enum_name = Some ''Color'', literals = [''RED'']\<rparr>"
  have clash: "?c \<in> set (classes color_document)" "class_name ?c = Some ''Color''"
    "enumerations color_document = [] @ ?e # []" "enum_name ?e = Some ''Color''"
    "\<forall>e' \<in> set []. enum_name e' \<noteq> Some ''Color''"
    by (simp_all add: color_document_def)
  obtain m w where c: "compute_metrics color_document color_enumeration = Inr (m, w)"
    using compute_metrics_total [OF color_universe(1,2)] by blast
  obtain m' w' where c': "compute_metrics color_enumeration color_document = Inr (m', w')"
    using compute_metrics_total [OF color_universe(2,1)] by blast
  obtain mb wb where b: "compute_metrics color_document color_blue = Inr (mb, wb)"
    using compute_metrics_total [OF color_universe(1,3)] by blast
  obtain mb' wb' where b': "compute_metrics color_blue color_document = Inr (mb', wb')"
    using compute_metrics_total [OF color_universe(3,1)] by blast
  obtain mc wc where k: "compute_metrics color_document color_class = Inr (mc, wc)"
    using compute_metrics_total [OF color_universe(1,4)] by blast
  obtain mc' wc' where k': "compute_metrics color_class color_document = Inr (mc', wc')"
    using compute_metrics_total [OF color_universe(4,1)] by blast
  have same: "true_classes_and_enums (counts m) = 1
      \<and> predicted_classes_and_enums (counts m') = 1
      \<and> ''Color'' \<in> set (matched (detailed_class_matching m))
      \<and> ''Color'' \<in> set (matched (detailed_class_matching m'))"
    using enumeration_overwrites_class [OF clash color_universe(1,2) c c'] by simp
  have blue: "''Color'' \<notin> set (matched (detailed_class_matching mb))"
    using enumeration_overwrites_class [OF clash color_universe(1,3) b b'] by simp
  have cls: "''Color'' \<notin> set (matched (detailed_class_matching mc))"
    using enumeration_overwrites_class [OF clash color_universe(1,4) k k'] by simp
  from same blue cls c c' b k show ?thesis by blast
qed

section \<open>Overall metrics\<close>

text \<open>
  C6. The overall triple is \<open>calc_prf\<close> of the summed counts: the number of elements
  plus the number of relationship keys, for the ground truth, the prediction and the
  matches; these are the sums of the counts reported. It is not the average of the
  two F1 values: for two documents that agree on their one class and on none of
  their three dependencies, the class F1 is 1, the relationship F1 is 0 and the
  overall F1 is 1/4.
\<close>

theorem overall_from_summed_counts:
  "(compute_metrics t p = Inr (m, w) \<and> element_universe t = Inr te \<and> element_universe p = Inr pe \<longrightarrow>
      calc_prf
        (length te
           + sum_list (map (\<lambda>rt. card (fst (process_relationships (relationships t rt) rt))) rel_types))
        (length pe
           + sum_list (map (\<lambda>rt. card (fst (process_relationships (relationships p rt) rt))) rel_types))
        (card (match_elements te pe)
           + sum_list (map (\<lambda>rt. card (fst (process_relationships (relationships t rt) rt)
                                      \<inter> fst (process_relationships (relationships p rt) rt))) rel_types))
      = Inr (overall_metrics m)
    \<and> calc_prf
        (true_classes_and_enums (counts m) + true_relationships (counts m))
        (predicted_classes_and_enums (counts m) + predicted_relationships (counts m))
        (matched_classes_and_enums (counts m) + matched_relationships (counts m))
      = Inr (overall_metrics m))
   \<and> (case compute_metrics fleet_ground_truth fleet_prediction of
         Inl e \<Rightarrow> False
       | Inr (m, w) \<Rightarrow>
           f1 (class_metrics m) = 1 \<and> f1 (relationship_metrics m) = 0
           \<and> f1 (overall_metrics m) = 1 / 4
           \<and> f1 (overall_metrics m) \<noteq> (f1 (class_metrics m) + f1 (relationship_metrics m)) / 2)"
proof (intro conjI impI)
  assume a: "compute_metrics t p = Inr (m, w) \<and> element_universe t = Inr te \<and> element_universe p = Inr pe"
  then have sc: "score te pe t p = Inr (m, w)" by (auto simp: compute_metrics_universes)
  show "calc_prf
        (length te
           + sum_list (map (\<lambda>rt. card (fst (process_relationships (relationships t rt) rt))) rel_types))
        (length pe
           + sum_list (map (\<lambda>rt. card (fst (process_relationships (relationships p rt) rt))) rel_types))
        (card (match_elements te pe)
           + sum_list (map (\<lambda>rt. card (fst (process_relationships (relationships t rt) rt)
                                      \<inter> fst (process_relationships (relationships p rt) rt))) rel_types))
      = Inr (overall_metrics m)"
    using score_value [OF sc] by blast
  have cnt: "counts m =
       \<lparr>true_classes_and_enums = length te,
        predicted_classes_and_enums = length pe,
        matched_classes_and_enums = card (match_elements te pe),
        true_relationships =
          sum_list (map (\<lambda>rt. card (fst (process_relationships (relationships t rt) rt))) rel_types),
        predicted_relationships =
          sum_list (map (\<lambda>rt. card (fst (process_relationships (relationships p rt) rt))) rel_types),
        matched_relationships =
          sum_list (map (\<lambda>rt. card (fst (process_relationships (relationships t rt) rt)
                                   \<inter> fst (process_relationships (relationships p rt) rt))) rel_types)\<rparr>"
    using score_value [OF sc] by blast
  show "calc_prf
        (true_classes_and_enums (counts m) + true_relationships (counts m))
        (predicted_classes_and_enums (counts m) + predicted_relationships (counts m))
        (matched_classes_and_enums (counts m) + matched_relationships (counts m))
      = Inr (overall_metrics m)"
    using score_value [OF sc] by (simp add: cnt)
next
  show "case compute_metrics fleet_ground_truth fleet_prediction of
         Inl e \<Rightarrow> False
       | Inr (m, w) \<Rightarrow>
           f1 (class_metrics m) = 1 \<and> f1 (relationship_metrics m) = 0
           \<and> f1 (overall_metrics m) = 1 / 4
           \<and> f1 (overall_metrics m) \<noteq> (f1 (class_metrics m) + f1 (relationship_metrics m)) / 2"
    by code_simp
qed

lemma fleet_universes:
  "element_universe fleet_ground_truth = Inr [(''Car'', \<lparr>kind = ''class'', attrs = {}, ops = {}\<rparr>)]"
  "element_universe fleet_prediction = Inr [(''Car'', \<lparr>kind = ''class'', attrs = {}, ops = {}\<rparr>)]"
  by (simp_all add: element_universe_def fleet_ground_truth_def fleet_prediction_def class_element_def)

lemma fleet_counts:
  "sum_list (map (\<lambda>rt. card (fst (process_relationships (relationships fleet_ground_truth rt) rt))) rel_types) = 3"
  "sum_list (map (\<lambda>rt. card (fst (process_relationships (relationships fleet_prediction rt) rt))) rel_types) = 3"
  "sum_list (map (\<lambda>rt. card (fst (process_relationships (relationships fleet_ground_truth rt) rt)
                              \<inter> fst (process_relationships (relationships fleet_prediction rt) rt))) rel_types) = 0"
  "card (match_elements [(''Car'', \<lparr>kind = ''class'', attrs = {}, ops = {}\<rparr>)]
                        [(''Car'', \<lparr>kind = ''class'', attrs = {}, ops = {}\<rparr>)]) = 1"
  by code_simp+

theorem overall_from_summed_counts_witness:
  "\<exists>m w. compute_metrics fleet_ground_truth fleet_prediction = Inr (m, w)
     \<and> calc_prf (1 + 3) (1 + 3) (1 + 0) = Inr (overall_metrics m)
     \<and> overall_metrics m = \<lparr>precision = 1 / 4, recall = 1 / 4, f1 = 1 / 4\<rparr>"
proof -
  obtain m w where c: "compute_metrics fleet_ground_truth fleet_prediction = Inr (m, w)"
    using compute_metrics_total [OF fleet_universes] by blast
  let ?els = "[(''Car'', \<lparr>kind = ''class'', attrs = {}, ops = {}\<rparr>)]"
  have "calc_prf (1 + 3) (1 + 3) (1 + 0) = Inr (overall_metrics m)"
    using overall_from_summed_counts [of fleet_ground_truth fleet_prediction m w ?els ?els]
      c fleet_universes by (simp add: fleet_counts)
  moreover have "calc_prf (1 + 3) (1 + 3) (1 + 0) = Inr \<lparr>precision = 1 / 4, recall = 1 / 4, f1 = 1 / 4\<rparr>"
    by code_simp
  ultimately show ?thesis using c by auto
qed

section \<open>Operations: the return type\<close>

text \<open>
  Stripping and the removal of the visibility keep every parenthesis and colon, and
  keep the text after the last colon up to trailing whitespace.
\<close>

lemma count_list_dropWhile: "\<not> P c \<Longrightarrow> count_list (dropWhile P xs) c = count_list xs c"
  by (induction xs) auto

lemma count_list_strip: "\<not> is_space c \<Longrightarrow> count_list (strip s) c = count_list s c"
  by (simp add: strip_def lstrip_def rstrip_def count_list_dropWhile)

lemma count_list_take_visibility:
  assumes "\<not> is_space c" and "c \<notin> set [CHR ''+'', CHR ''-'', CHR ''#'', CHR ''~'']"
  shows "count_list (snd (take_visibility s)) c = count_list s c"
  using assms by (cases s) (auto simp: take_visibility_def count_list_strip)

lemma rstrip_split: "\<not> is_space c \<Longrightarrow> rstrip (pre @ c # t) = pre @ c # rstrip t"
  by (simp add: rstrip_def dropWhile_keep)

lemma lstrip_split: "\<not> is_space c \<Longrightarrow> lstrip (pre @ c # t) = lstrip pre @ c # t"
  by (simp add: lstrip_def dropWhile_keep)

lemma strip_split: "\<not> is_space c \<Longrightarrow> strip (pre @ c # t) = lstrip pre @ c # rstrip t"
  by (simp add: strip_def rstrip_split lstrip_split)

lemma take_visibility_split:
  assumes "\<not> is_space c" and "c \<notin> set [CHR ''+'', CHR ''-'', CHR ''#'', CHR ''~'']"
  shows "\<exists>pre'. snd (take_visibility (pre @ c # rstrip t)) = pre' @ c # rstrip t"
proof (cases pre)
  case Nil
  then show ?thesis using assms(2) by (simp add: take_visibility_def)
next
  case (Cons x xs)
  show ?thesis
  proof (cases "x \<in> set [CHR ''+'', CHR ''-'', CHR ''#'', CHR ''~'']")
    case True
    then have "snd (take_visibility (pre @ c # rstrip t)) = strip (xs @ c # rstrip t)"
      by (simp add: take_visibility_def Cons)
    then show ?thesis by (simp add: strip_split [OF assms(1)] rstrip_rstrip)
  next
    case False
    then have "snd (take_visibility (pre @ c # rstrip t)) = pre @ c # rstrip t"
      by (simp add: take_visibility_def Cons)
    then show ?thesis by blast
  qed
qed

text \<open>\<open>rfind\<close> on a string split at the last occurrence of a character.\<close>

lemma rfind_last: "c \<notin> set t \<Longrightarrow> rfind (pre @ c # t) c = int (length pre)"
proof -
  assume c: "c \<notin> set t"
  have "takeWhile (\<lambda>x. x \<noteq> c) (rev t @ c # rev pre) = rev t"
    using c by (auto simp: takeWhile_tail)
  then show ?thesis by (simp add: rfind_def)
qed

lemma rfind_absent: "c \<notin> set s \<Longrightarrow> rfind s c = - 1"
  by (simp add: rfind_def)

lemma rfind_before_iff:
  assumes "c \<notin> set t" and "d \<noteq> c"
  shows "rfind (pre @ c # t) d < int (length pre) \<longleftrightarrow> d \<notin> set t"
proof (cases "d \<in> set t")
  case True
  then obtain t1 t2 where t: "t = t1 @ d # t2" and d: "d \<notin> set t2"
    using split_list_last by fastforce
  have "rfind ((pre @ c # t1) @ d # t2) d = int (length (pre @ c # t1))"
    using d by (rule rfind_last)
  then show ?thesis using True by (simp add: t)
next
  case False
  show ?thesis
  proof (cases "d \<in> set pre")
    case True
    then obtain p1 p2 where p: "pre = p1 @ d # p2" and d: "d \<notin> set p2"
      using split_list_last by fastforce
    have "rfind (p1 @ d # (p2 @ c # t)) d = int (length p1)"
      using d False assms(2) by (intro rfind_last) simp
    then show ?thesis using False by (simp add: p)
  next
    case np: False
    then have "rfind (pre @ c # t) d = - 1"
      using False assms(2) by (intro rfind_absent) simp
    then show ?thesis using False by simp
  qed
qed

lemma slice_from_after: "slice_from (pre @ c # t) (int (length pre) + 1) = t"
proof -
  have "nat (int (length pre) + 1) = Suc (length pre)" by simp
  then show ?thesis by (simp add: slice_from_def slice_bound_def)
qed

lemma set_rstrip_nonspace: "\<not> is_space c \<Longrightarrow> c \<in> set (rstrip t) \<longleftrightarrow> c \<in> set t"
  using count_list_dropWhile [of is_space c "rev t"]
  by (metis count_list_0_iff count_list_rev rstrip_def)

lemma rfind_lower: "- 1 \<le> rfind s c"
proof (cases "c \<in> set s")
  case True
  then obtain pre t where "s = pre @ c # t" "c \<notin> set t"
    using split_list_last by fastforce
  then show ?thesis by (simp add: rfind_last)
next
  case False
  then show ?thesis by (simp add: rfind_absent)
qed

lemma parse_operation_return_type:
  "snd (snd (snd (parse_operation raw))) = fst (return_type (snd (take_visibility (strip raw))))"
  by (simp add: parse_operation_def Let_def split: prod.splits)

lemma return_type_split:
  assumes "CHR '':'' \<notin> set u"
  shows "fst (return_type (pre @ CHR '':'' # u)) =
           (if count_list (pre @ CHR '':'' # u) CHR ''('' = count_list (pre @ CHR '':'' # u) CHR '')''
               \<and> CHR '')'' \<notin> set u
            then strip u else ''void'')"
proof -
  have c: "rfind (pre @ CHR '':'' # u) CHR '':'' = int (length pre)"
    using assms by (rule rfind_last)
  have p: "rfind (pre @ CHR '':'' # u) CHR '')'' < int (length pre) \<longleftrightarrow> CHR '')'' \<notin> set u"
    using assms by (intro rfind_before_iff) simp_all
  have s: "slice_from (pre @ CHR '':'' # u) (int (length pre) + 1) = u"
    by (rule slice_from_after)
  show ?thesis
    unfolding return_type_def Let_def c s using p by simp
qed

text \<open>
  C7. For every raw string: when the number of \<open>(\<close> equals the number of \<open>)\<close>
  and the last \<open>:\<close> comes after the last \<open>)\<close> (both positions as \<open>rfind\<close>
  gives them on the raw string, \<open>-1\<close> for a character that does not occur), the
  return type is the text after that last \<open>:\<close>, stripped; otherwise it is
  \<open>"void"\<close>. For \<open>"+f(x: Map<K:V>): int"\<close> the return type is \<open>"int"\<close> and the
  colons inside the parameter stay in the parameter type.
\<close>

theorem return_type_after_last_colon:
  "snd (snd (snd (parse_operation raw))) =
     (if count_list raw CHR ''('' = count_list raw CHR '')''
         \<and> rfind raw CHR '')'' < rfind raw CHR '':''
      then strip (slice_from raw (rfind raw CHR '':'' + 1))
      else ''void'')
   \<and> parse_operation ''+f(x: Map<K:V>): int'' = (''+'', ''f'', [(''x'', ''Map<K:V>'')], ''int'')"
proof
  let ?op = "snd (take_visibility (strip raw))"
  have cnt: "count_list ?op c = count_list raw c"
    if "c = CHR ''('' \<or> c = CHR '')'' \<or> c = CHR '':''" for c
    using that by (auto simp: count_list_take_visibility count_list_strip is_space_def)
  show "snd (snd (snd (parse_operation raw))) =
     (if count_list raw CHR ''('' = count_list raw CHR '')''
         \<and> rfind raw CHR '')'' < rfind raw CHR '':''
      then strip (slice_from raw (rfind raw CHR '':'' + 1))
      else ''void'')"
  proof (cases "CHR '':'' \<in> set raw")
    case False
    then have "count_list ?op CHR '':'' = 0" by (simp add: cnt)
    then have "CHR '':'' \<notin> set ?op" by (simp add: count_list_0_iff)
    then have l: "fst (return_type ?op) = ''void''" by (auto simp: return_type_def)
    have "rfind raw CHR '':'' = - 1" using False by (rule rfind_absent)
    then have "\<not> rfind raw CHR '')'' < rfind raw CHR '':''"
      using rfind_lower [of raw "CHR '')''"] by simp
    then show ?thesis by (simp add: parse_operation_return_type l)
  next
    case True
    then obtain pre t where raw: "raw = pre @ CHR '':'' # t" and t: "CHR '':'' \<notin> set t"
      using split_list_last by fastforce
    have sp: "\<not> is_space CHR '':''" "\<not> is_space CHR '')''" by (simp_all add: is_space_def)
    have "strip raw = lstrip pre @ CHR '':'' # rstrip t"
      by (simp add: raw strip_split sp)
    then obtain pre' where op: "?op = pre' @ CHR '':'' # rstrip t"
      using take_visibility_split [of "CHR '':''" "lstrip pre" t] sp by auto
    have u: "CHR '':'' \<notin> set (rstrip t)" using t by (simp add: set_rstrip_nonspace sp)
    have l: "fst (return_type ?op) =
           (if count_list raw CHR ''('' = count_list raw CHR '')'' \<and> CHR '')'' \<notin> set t
            then strip t else ''void'')"
      using return_type_split [OF u, of pre'] cnt
      by (simp add: op [symmetric] set_rstrip_nonspace sp strip_rstrip)
    have c: "rfind raw CHR '':'' = int (length pre)" unfolding raw using t by (rule rfind_last)
    have p: "rfind raw CHR '')'' < int (length pre) \<longleftrightarrow> CHR '')'' \<notin> set t"
      unfolding raw using t by (intro rfind_before_iff) simp_all
    have s: "slice_from raw (rfind raw CHR '':'' + 1) = t"
      unfolding c unfolding raw by (rule slice_from_after)
    show ?thesis by (simp add: parse_operation_return_type l s) (auto simp: c p)
  qed
next
  show "parse_operation ''+f(x: Map<K:V>): int'' = (''+'', ''f'', [(''x'', ''Map<K:V>'')], ''int'')"
    by code_simp
qed

theorem return_type_after_last_colon_witness:
  "count_list '' -area( ) : float '' CHR ''('' = count_list '' -area( ) : float '' CHR '')''
   \<and> rfind '' -area( ) : float '' CHR '')'' < rfind '' -area( ) : float '' CHR '':''
   \<and> parse_operation '' -area( ) : float '' = (''-'', ''area'', [], ''float'')
   \<and> snd (snd (snd (parse_operation ''+f(x: int''))) = ''void''"
proof -
  have "snd (snd (snd (parse_operation '' -area( ) : float ''))) = ''float''"
    using return_type_after_last_colon [of "'' -area( ) : float ''"]
    by (simp add: rfind_def slice_from_def slice_bound_def strip_eval)
  moreover have "snd (snd (snd (parse_operation ''+f(x: int''))) = ''void''"
    using return_type_after_last_colon [of "''+f(x: int''"] by simp
  moreover have "parse_operation '' -area( ) : float '' = (''-'', ''area'', [], ''float'')"
    by code_simp
  ultimately show ?thesis by (simp add: rfind_def)
qed

end
